theory Spec2Isabelle
  imports Main "HOL-Library.Multiset" "HOL-Library.Char_ord" "HOL-Library.List_Lexorder"
begin

section \<open>The request handler of pythonserver2.py\<close>

text \<open>
  Representation. A Python \<open>str\<close> is modelled by the byte string of its UTF-8
  encoding, so \<open>.encode('utf-8')\<close> is the identity, \<open>len\<close> of an encoded page is
  \<open>length\<close>, and the code-point order used by \<open>sorted\<close> is the lexicographic order
  on bytes. The transport (socket, header formatting, the accept loop) is outside the
  model: a response is the status, the headers the handler sends itself, and the bytes
  written to \<open>wfile\<close>; writes to the transport are taken to succeed.
\<close>

subsection \<open>String operations of the Python library\<close>

definition startswith :: "string \<Rightarrow> string \<Rightarrow> bool" where
  "startswith s pre = (take (length pre) s = pre)"

definition endswith :: "string \<Rightarrow> string \<Rightarrow> bool" where
  "endswith s suf = (length suf \<le> length s \<and> drop (length s - length suf) s = suf)"

text \<open>\<open>s.split(sep)\<close> for a one-character separator: empty fields are kept.\<close>

fun split_sep :: "char \<Rightarrow> string \<Rightarrow> string list" where
  "split_sep c [] = [[]]"
| "split_sep c (x # xs) =
     (if x = c then [] # split_sep c xs
      else (case split_sep c xs of
              [] \<Rightarrow> [[x]]
            | y # ys \<Rightarrow> (x # y) # ys))"

text \<open>\<open>sep.join(xs)\<close>.\<close>

fun join_str :: "string \<Rightarrow> string list \<Rightarrow> string" where
  "join_str sep [] = []"
| "join_str sep [x] = x"
| "join_str sep (x # y # ys) = x @ sep @ join_str sep (y # ys)"

definition digit_char :: "nat \<Rightarrow> char" where
  "digit_char d = ''0123456789'' ! d"

text \<open>\<open>str(n)\<close> for a non-negative integer.\<close>

function str_nat :: "nat \<Rightarrow> string" where
  "str_nat n = (if n < 10 then [digit_char n] else str_nat (n div 10) @ [digit_char (n mod 10)])"
  by pat_completeness auto
termination
  by (relation "measure (\<lambda>n. n)") auto

declare str_nat.simps [simp del]

subsection \<open>posixpath: join, normpath, abspath\<close>

text \<open>\<open>os.path.join(a, b)\<close> for two arguments.\<close>

definition path_join :: "string \<Rightarrow> string \<Rightarrow> string" where
  "path_join a b =
     (if startswith b ''/'' then b
      else if a = [] \<or> endswith a ''/'' then a @ b
      else a @ ''/'' @ b)"

text \<open>
  One round of the loop of \<open>normpath\<close>: \<open>slashes\<close> is the number of leading
  slashes kept (0, 1 or 2), \<open>new_comps\<close> the components collected so far.
\<close>

definition normpath_step :: "nat \<Rightarrow> string list \<Rightarrow> string \<Rightarrow> string list" where
  "normpath_step slashes new_comps component =
     (if component = [] \<or> component = ''.'' then new_comps
      else if component \<noteq> ''..'' \<or> (slashes = 0 \<and> new_comps = [])
              \<or> (new_comps \<noteq> [] \<and> last new_comps = ''..'')
        then new_comps @ [component]
      else if new_comps \<noteq> [] then butlast new_comps
      else new_comps)"

definition initial_slashes :: "string \<Rightarrow> nat" where
  "initial_slashes p =
     (if startswith p ''/'' then
        (if startswith p ''//'' \<and> \<not> startswith p ''///'' then 2 else 1)
      else 0)"

definition normpath :: "string \<Rightarrow> string" where
  "normpath p =
     (if p = [] then ''.''
      else
        let n = initial_slashes p;
            comps = foldl (normpath_step n) [] (split_sep CHR ''/'' p);
            q = replicate n CHR ''/'' @ join_str ''/'' comps
        in if q = [] then ''.'' else q)"

text \<open>\<open>os.path.abspath(p)\<close> in the working directory \<open>wd\<close>.\<close>

definition abspath :: "string \<Rightarrow> string \<Rightarrow> string" where
  "abspath wd p = (if startswith p ''/'' then normpath p else normpath (path_join wd p))"

subsection \<open>The environment: filesystem, interpreter, clock\<close>

text \<open>
  What a path names: a regular file (with what \<open>open(..., 'rb').read()\<close> gives: the
  message of the \<open>OSError\<close>, or the bytes), a directory (with what \<open>os.listdir\<close>
  gives), or another kind of object (a device, a socket, a FIFO). A path with no node
  does not exist.
\<close>

datatype fsnode =
    RegFile "string + string"
  | Directory "string + string list"
  | Special

text \<open>What \<open>subprocess.run(['python', p], capture_output=True, text=True, check=True)\<close> does.\<close>

datatype cgi_result =
    CgiStdout string
  | CalledProcessError string
  | CgiOtherError string

record env =
  cwd :: string
  fs :: "string \<Rightarrow> fsnode option"
  run_python :: "string \<Rightarrow> cgi_result"
  date_time_string :: string

record request =
  command :: string
  path :: string
  headers :: "(string \<times> string) list"
  rfile :: string
  client_host :: string
  client_port :: nat

text \<open>The handler object while a GET is processed: \<open>self.full_path\<close> has been set.\<close>

record handler =
  h_env :: env
  h_req :: request
  full_path :: string

record response =
  status :: nat
  resp_headers :: "(string \<times> string) list"
  body :: string

datatype exn =
    ServerException string
  | OtherException string

text \<open>
  Everything a request does to the world outside the handler, in order, and which
  case of the chain was tested and which was acted on.
\<close>

datatype case_kind =
    CaseNoFile
  | CaseExistingFile
  | CaseDirectoryIndexFile
  | CaseDirectoryNoIndexFile
  | CaseCGIFile
  | CaseAlwaysFail

datatype event =
    EvExists string
  | EvIsFile string
  | EvIsDir string
  | EvOpen string
  | EvListDir string
  | EvRunCgi string
  | EvTest case_kind
  | EvAct case_kind

definition os_path_exists :: "env \<Rightarrow> string \<Rightarrow> bool" where
  "os_path_exists e p = (fs e p \<noteq> None)"

definition os_path_isfile :: "env \<Rightarrow> string \<Rightarrow> bool" where
  "os_path_isfile e p = (case fs e p of Some (RegFile _) \<Rightarrow> True | _ \<Rightarrow> False)"

definition os_path_isdir :: "env \<Rightarrow> string \<Rightarrow> bool" where
  "os_path_isdir e p = (case fs e p of Some (Directory _) \<Rightarrow> True | _ \<Rightarrow> False)"

text \<open>Opening and reading a path that is not a regular file fails (or does not return).\<close>

definition open_read :: "env \<Rightarrow> string \<Rightarrow> string + string" where
  "open_read e p =
     (case fs e p of
        Some (RegFile r) \<Rightarrow> r
      | Some (Directory _) \<Rightarrow> Inl ''[Errno 21] Is a directory''
      | Some Special \<Rightarrow> Inl ''[Errno 6] No such device or address''
      | None \<Rightarrow> Inl ''[Errno 2] No such file or directory'')"

definition os_listdir :: "env \<Rightarrow> string \<Rightarrow> string + string list" where
  "os_listdir e p =
     (case fs e p of
        Some (Directory r) \<Rightarrow> r
      | Some _ \<Rightarrow> Inl ''[Errno 20] Not a directory''
      | None \<Rightarrow> Inl ''[Errno 2] No such file or directory'')"

subsection \<open>Responses and page templates\<close>

definition NL :: string where
  "NL = [CHR 0x0A]"

definition SQ :: string where
  "SQ = [CHR 0x27]"

definition ERROR_PAGE :: "string \<Rightarrow> string \<Rightarrow> string" where
  "ERROR_PAGE p msg =
     ''<html>'' @ NL @
     ''<head><title>Error accessing '' @ p @ ''</title></head>'' @ NL @
     ''<body>'' @ NL @
     ''<h1>Error accessing '' @ p @ ''</h1>'' @ NL @
     ''<p>'' @ msg @ ''</p>'' @ NL @
     ''</body>'' @ NL @
     ''</html>''"

definition LISTING_PAGE :: "string \<Rightarrow> string \<Rightarrow> string" where
  "LISTING_PAGE p items =
     ''<html>'' @ NL @
     ''<head><title>Directory listing for '' @ p @ ''</title></head>'' @ NL @
     ''<body>'' @ NL @
     ''<h2>Directory listing for '' @ p @ ''</h2>'' @ NL @
     ''<hr>'' @ NL @
     ''<ul>'' @ NL @
     items @ NL @
     ''</ul>'' @ NL @
     ''<hr>'' @ NL @
     ''</body>'' @ NL @
     ''</html>''"

definition ROOT_PAGE :: "string \<Rightarrow> string \<Rightarrow> string \<Rightarrow> string \<Rightarrow> string \<Rightarrow> string" where
  \<open>ROOT_PAGE date_time host port cmd p =
     ''<html>'' @ NL @
     ''<head><title>Server Info</title></head>'' @ NL @
     ''<body>'' @ NL @
     ''<h1>Server Information</h1>'' @ NL @
     ''<table border="1">'' @ NL @
     ''<tr><th>Header</th><th>Value</th></tr>'' @ NL @
     ''<tr><td>Date and time</td><td>'' @ date_time @ ''</td></tr>'' @ NL @
     ''<tr><td>Client host</td><td>'' @ host @ ''</td></tr>'' @ NL @
     ''<tr><td>Client port</td><td>'' @ port @ ''</td></tr>'' @ NL @
     ''<tr><td>Command</td><td>'' @ cmd @ ''</td></tr>'' @ NL @
     ''<tr><td>Path</td><td>'' @ p @ ''</td></tr>'' @ NL @
     ''</table>'' @ NL @
     ''</body>'' @ NL @
     ''</html>''\<close>

text \<open>
  \<open>send_response(st)\<close>, the two \<open>send_header\<close> calls, \<open>end_headers()\<close> and
  \<open>wfile.write(content)\<close>, as every sender of the handler performs them.
\<close>

definition send :: "nat \<Rightarrow> string \<Rightarrow> string \<Rightarrow> response" where
  "send st content_type content =
     \<lparr>status = st,
      resp_headers = [(''Content-Type'', content_type),
                      (''Content-Length'', str_nat (length content))],
      body = content\<rparr>"

definition send_content :: "string \<Rightarrow> response" where
  "send_content content = send 200 ''text/html'' content"

definition handle_error :: "request \<Rightarrow> string \<Rightarrow> nat \<Rightarrow> response" where
  "handle_error r msg st = send st ''text/html'' (ERROR_PAGE (path r) msg)"

definition send_root_page :: "env \<Rightarrow> request \<Rightarrow> response" where
  "send_root_page e r =
     send_content
       (ROOT_PAGE (date_time_string e) (client_host r) (str_nat (client_port r))
          (command r) (path r))"

subsection \<open>The actions of the handler\<close>

definition content_type_of :: "string \<Rightarrow> string" where
  "content_type_of fp =
     (if endswith fp ''.html'' then ''text/html''
      else if endswith fp ''.css'' then ''text/css''
      else if endswith fp ''.js'' then ''application/javascript''
      else if endswith fp ''.png'' then ''image/png''
      else if endswith fp ''.jpg'' \<or> endswith fp ''.jpeg'' then ''image/jpeg''
      else ''text/plain'')"

definition handle_file :: "handler \<Rightarrow> string \<Rightarrow> (exn + response) \<times> event list" where
  "handle_file h fp =
     (case open_read (h_env h) fp of
        Inr content \<Rightarrow> (Inr (send 200 (content_type_of fp) content), [EvOpen fp])
      | Inl _ \<Rightarrow> (Inl (ServerException (''Cannot read file: '' @ fp)), [EvOpen fp]))"

text \<open>The loop of \<open>list_dir\<close> over the sorted entries.\<close>

fun list_items :: "string \<Rightarrow> string list \<Rightarrow> string list" where
  \<open>list_items p [] = []\<close>
| \<open>list_items p (entry # entries) =
     (if \<not> startswith entry ''.''
      then (''<li><a href="'' @ path_join p entry @ ''">'' @ entry @ ''</a></li>'')
             # list_items p entries
      else list_items p entries)\<close>

definition list_dir :: "handler \<Rightarrow> string \<Rightarrow> (exn + response) \<times> event list" where
  "list_dir h fp =
     (case os_listdir (h_env h) fp of
        Inr names \<Rightarrow>
          (let entries = sort names;
               items = list_items (path (h_req h)) entries;
               page = LISTING_PAGE (path (h_req h)) (join_str NL items)
           in (Inr (send_content page), [EvListDir fp]))
      | Inl msg \<Rightarrow>
          (Inl (ServerException (SQ @ path (h_req h) @ SQ @ '' cannot be listed: '' @ msg)),
           [EvListDir fp]))"

definition run_cgi :: "handler \<Rightarrow> string \<Rightarrow> (exn + response) \<times> event list" where
  "run_cgi h fp =
     (case run_python (h_env h) fp of
        CgiStdout out \<Rightarrow> (Inr (send_content out), [EvRunCgi fp])
      | CalledProcessError err \<Rightarrow>
          (Inr (handle_error (h_req h) (''CGI script error: '' @ err) 500), [EvRunCgi fp])
      | CgiOtherError msg \<Rightarrow>
          (Inr (handle_error (h_req h) (''Error running CGI: '' @ msg) 500), [EvRunCgi fp]))"

subsection \<open>The cases\<close>

definition index_path :: "handler \<Rightarrow> string" where
  "index_path h = path_join (full_path h) ''index.html''"

text \<open>
  \<open>case.test(handler)\<close>: the boolean and the filesystem queries made, in order. The
  second operand of \<open>and\<close> is evaluated only when the first is true.
\<close>

fun test :: "case_kind \<Rightarrow> handler \<Rightarrow> bool \<times> event list" where
  "test CaseNoFile h =
     (\<not> os_path_exists (h_env h) (full_path h), [EvExists (full_path h)])"
| "test CaseExistingFile h =
     (os_path_isfile (h_env h) (full_path h), [EvIsFile (full_path h)])"
| "test CaseDirectoryIndexFile h =
     (if os_path_isdir (h_env h) (full_path h)
      then (os_path_isfile (h_env h) (index_path h),
            [EvIsDir (full_path h), EvIsFile (index_path h)])
      else (False, [EvIsDir (full_path h)]))"
| "test CaseDirectoryNoIndexFile h =
     (if os_path_isdir (h_env h) (full_path h)
      then (\<not> os_path_isfile (h_env h) (index_path h),
            [EvIsDir (full_path h), EvIsFile (index_path h)])
      else (False, [EvIsDir (full_path h)]))"
| "test CaseCGIFile h =
     (if os_path_isfile (h_env h) (full_path h)
      then (endswith (full_path h) ''.py'', [EvIsFile (full_path h)])
      else (False, [EvIsFile (full_path h)]))"
| "test CaseAlwaysFail h = (True, [])"

fun act :: "case_kind \<Rightarrow> handler \<Rightarrow> (exn + response) \<times> event list" where
  "act CaseNoFile h =
     (Inl (ServerException (SQ @ path (h_req h) @ SQ @ '' not found'')), [])"
| "act CaseExistingFile h = handle_file h (full_path h)"
| "act CaseDirectoryIndexFile h = handle_file h (index_path h)"
| "act CaseDirectoryNoIndexFile h = list_dir h (full_path h)"
| "act CaseCGIFile h = run_cgi h (full_path h)"
| "act CaseAlwaysFail h =
     (Inl (ServerException (''Unknown object '' @ SQ @ path (h_req h) @ SQ)), [])"

definition CASES :: "case_kind list" where
  "CASES = [CaseNoFile, CaseExistingFile, CaseDirectoryIndexFile,
            CaseDirectoryNoIndexFile, CaseCGIFile, CaseAlwaysFail]"

text \<open>
  The loop \<open>for case in self.CASES: if case.test(self): case.act(self); break\<close>.
  The result is \<open>None\<close> when the list is exhausted with no case matching: then nothing
  has been sent.
\<close>

fun run_cases :: "case_kind list \<Rightarrow> handler \<Rightarrow> (exn + response option) \<times> event list" where
  "run_cases [] h = (Inr None, [])"
| "run_cases (c # cs) h =
     (case test c h of
        (True, tq) \<Rightarrow>
          (case act c h of
             (Inl x, ta) \<Rightarrow> (Inl x, EvTest c # tq @ EvAct c # ta)
           | (Inr resp, ta) \<Rightarrow> (Inr (Some resp), EvTest c # tq @ EvAct c # ta))
      | (False, tq) \<Rightarrow>
          (case run_cases cs h of
             (res, tr) \<Rightarrow> (res, EvTest c # tq @ tr)))"

subsection \<open>GET\<close>

text \<open>The body of the \<open>try\<close> block of \<open>do_GET\<close>.\<close>

definition do_GET_try :: "env \<Rightarrow> request \<Rightarrow> (exn + response option) \<times> event list" where
  "do_GET_try e r =
     (if path r = ''/'' then (Inr (Some (send_root_page e r)), [])
      else
        let fp = abspath (cwd e) (cwd e @ path r) in
        if \<not> startswith fp (cwd e)
        then (Inl (ServerException ''Attempted directory traversal''), [])
        else run_cases CASES \<lparr>h_env = e, h_req = r, full_path = fp\<rparr>)"

text \<open>\<open>do_GET\<close>: what is sent (if anything) and what the request did.\<close>

definition do_GET :: "env \<Rightarrow> request \<Rightarrow> response option \<times> event list" where
  "do_GET e r =
     (case do_GET_try e r of
        (Inr resp, tr) \<Rightarrow> (resp, tr)
      | (Inl (ServerException msg), tr) \<Rightarrow> (Some (handle_error r msg 404), tr)
      | (Inl (OtherException msg), tr) \<Rightarrow>
          (Some (handle_error r (''Internal server error: '' @ msg) 500), tr))"

subsection \<open>POST\<close>
















subsection \<open>The specification's wording\<close>

text \<open>
  The containment the specification asks of the path resolver: the canonical path is
  equal to the server root or a descendant of it.
\<close>

definition spec_within_root :: "string \<Rightarrow> string \<Rightarrow> bool" where
  "spec_within_root root p = (p = root \<or> startswith p (root @ ''/''))"


subsection \<open>A sample site\<close>

definition example_fs :: "string \<Rightarrow> fsnode option" where
  "example_fs =
     [''/srv'' \<mapsto> Directory (Inr [''script.py'', ''pub'', ''docs'', ''locked.txt'', ''private'',
                                  ''index.html'']),
      ''/srv/index.html'' \<mapsto> RegFile (Inr ''<h1>home</h1>''),
      ''/srv/script.py'' \<mapsto> RegFile (Inr ''print(1)''),
      ''/srv/locked.txt'' \<mapsto> RegFile (Inl ''[Errno 13] Permission denied''),
      ''/srv/pub'' \<mapsto> Directory (Inr [''b.txt'', ''.hidden'', ''a.css'']),
      ''/srv/pub/a.css'' \<mapsto> RegFile (Inr ''p {}''),
      ''/srv/docs'' \<mapsto> Directory (Inr [''index.html'']),
      ''/srv/docs/index.html'' \<mapsto> RegFile (Inr ''<p>hi</p>''),
      ''/srv/private'' \<mapsto> Directory (Inr [''index.html'']),
      ''/srv/private/index.html'' \<mapsto> RegFile (Inl ''[Errno 13] Permission denied''),
      ''/srv2/secret'' \<mapsto> RegFile (Inr ''top secret'')]"

definition example_env :: env where
  "example_env =
     \<lparr>cwd = ''/srv'', fs = example_fs, run_python = (\<lambda>_. CgiStdout ''1''),
      date_time_string = ''Tue, 03 Nov 2026 12:00:00 GMT''\<rparr>"

definition get_request :: "string \<Rightarrow> request" where
  "get_request p =
     \<lparr>command = ''GET'', path = p, headers = [], rfile = [],
      client_host = ''127.0.0.1'', client_port = 54321\<rparr>"


definition example_handler :: "string \<Rightarrow> handler" where
  "example_handler p =
     \<lparr>h_env = example_env, h_req = get_request p,
      full_path = abspath ''/srv'' (''/srv'' @ p)\<rparr>"

section \<open>Properties\<close>

subsection \<open>Auxiliary facts about the case chain\<close>

lemma test_no_marks:
  "EvTest k \<notin> set (snd (test c h))" "EvAct k \<notin> set (snd (test c h))"
  by (cases c; simp)+

lemma act_no_marks:
  "EvTest k \<notin> set (snd (act c h))" "EvAct k \<notin> set (snd (act c h))"
  by (cases c; simp add: handle_file_def list_dir_def run_cgi_def Let_def
        split: sum.split cgi_result.split)+

lemma run_cases_first_match:
  assumes "\<forall>k\<in>set pre. \<not> fst (test k h)" and "fst (test c h)"
  shows "run_cases (pre @ c # post) h =
           (map_sum id Some (fst (act c h)),
            concat (map (\<lambda>k. EvTest k # snd (test k h)) pre)
              @ EvTest c # snd (test c h) @ EvAct c # snd (act c h))"
  using assms
proof (induction pre)
  case Nil
  then show ?case
    by (cases "test c h"; cases "act c h") (auto split: sum.splits)
next
  case (Cons k pre)
  then show ?case
    by (cases "test k h") (auto split: prod.splits)
qed

lemma tested_marks:
  "EvTest k \<in> set (concat (map (\<lambda>k. EvTest k # snd (test k h)) pre)) \<longleftrightarrow> k \<in> set pre"
  "EvAct k \<notin> set (concat (map (\<lambda>k. EvTest k # snd (test k h)) pre))"
  using test_no_marks by (induction pre) auto

lemmas path_defs = abspath_def normpath_def startswith_def endswith_def initial_slashes_def
  normpath_step_def path_join_def

lemma example_script_path:
  "full_path (example_handler ''/script.py'') = ''/srv/script.py''"
  by (simp add: example_handler_def path_defs)

subsection \<open>First match wins\<close>

text \<open>
  Claim C2. The chain is the fixed list NotFound, PlainFile, DirectoryWithIndex,
  DirectoryListing, ExecutableScript, Fallback. For every handler some case matches, and
  whenever the list splits into cases whose tests are all false, a case \<open>c\<close> whose test
  is true, and the rest, the outcome of the chain is the outcome of \<open>c\<close>'s act, the
  trace consists of the tests up to \<open>c\<close> followed by \<open>c\<close>'s act, and no later case
  is tested or acted on, whatever its test would return.
\<close>

theorem first_match_wins:
  "CASES = [CaseNoFile, CaseExistingFile, CaseDirectoryIndexFile,
            CaseDirectoryNoIndexFile, CaseCGIFile, CaseAlwaysFail]
   \<and> (\<exists>pre c post. CASES = pre @ c # post \<and> (\<forall>k\<in>set pre. \<not> fst (test k h)) \<and> fst (test c h))
   \<and> (\<forall>pre c post.
        CASES = pre @ c # post \<and> (\<forall>k\<in>set pre. \<not> fst (test k h)) \<and> fst (test c h) \<longrightarrow>
          fst (run_cases CASES h) = map_sum id Some (fst (act c h))
          \<and> snd (run_cases CASES h) =
              concat (map (\<lambda>k. EvTest k # snd (test k h)) pre)
                @ EvTest c # snd (test c h) @ EvAct c # snd (act c h)
          \<and> (\<forall>k\<in>set post. EvTest k \<notin> set (snd (run_cases CASES h))
                           \<and> EvAct k \<notin> set (snd (run_cases CASES h))))"
proof (intro conjI allI impI)
  show "CASES = [CaseNoFile, CaseExistingFile, CaseDirectoryIndexFile,
            CaseDirectoryNoIndexFile, CaseCGIFile, CaseAlwaysFail]"
    by (simp add: CASES_def)
next
  let ?P = "\<lambda>c. fst (test c h)"
  have "?P CaseAlwaysFail" by simp
  then have ex: "\<exists>c\<in>set CASES. ?P c" by (simp add: CASES_def)
  then obtain pre c post where "CASES = pre @ c # post" "?P c" "\<forall>k\<in>set pre. \<not> ?P k"
    using split_list_first_prop [OF ex] by blast
  then show "\<exists>pre c post. CASES = pre @ c # post \<and> (\<forall>k\<in>set pre. \<not> fst (test k h)) \<and> fst (test c h)"
    by blast
next
  fix pre c post
  assume a: "CASES = pre @ c # post \<and> (\<forall>k\<in>set pre. \<not> fst (test k h)) \<and> fst (test c h)"
  then have run: "run_cases CASES h =
           (map_sum id Some (fst (act c h)),
            concat (map (\<lambda>k. EvTest k # snd (test k h)) pre)
              @ EvTest c # snd (test c h) @ EvAct c # snd (act c h))"
    using run_cases_first_match [of pre h c post] by simp
  show "fst (run_cases CASES h) = map_sum id Some (fst (act c h))"
    by (simp add: run)
  show "snd (run_cases CASES h) =
              concat (map (\<lambda>k. EvTest k # snd (test k h)) pre)
                @ EvTest c # snd (test c h) @ EvAct c # snd (act c h)"
    by (simp add: run)
  have "distinct CASES" by (simp add: CASES_def)
  with a have d: "distinct (pre @ c # post)" by simp
  show "\<forall>k\<in>set post. EvTest k \<notin> set (snd (run_cases CASES h))
                           \<and> EvAct k \<notin> set (snd (run_cases CASES h))"
  proof
    fix k assume "k \<in> set post"
    with d have "k \<notin> set pre" "k \<noteq> c" by auto
    then show "EvTest k \<notin> set (snd (run_cases CASES h))
                           \<and> EvAct k \<notin> set (snd (run_cases CASES h))"
      by (simp add: run tested_marks test_no_marks act_no_marks)
  qed
qed

text \<open>
  On the sample site, \<open>/script.py\<close> satisfies the tests of both the plain-file case
  and the script case; the plain-file case, which comes first, acts, and the script case
  is not even tested.
\<close>

theorem first_match_wins_witness:
  "fst (test CaseExistingFile (example_handler ''/script.py''))
   \<and> fst (test CaseCGIFile (example_handler ''/script.py''))
   \<and> fst (run_cases CASES (example_handler ''/script.py''))
       = map_sum id Some (fst (act CaseExistingFile (example_handler ''/script.py'')))
   \<and> EvTest CaseCGIFile \<notin> set (snd (run_cases CASES (example_handler ''/script.py'')))
   \<and> EvAct CaseCGIFile \<notin> set (snd (run_cases CASES (example_handler ''/script.py'')))"
proof -
  let ?h = "example_handler ''/script.py''"
  have env: "h_env ?h = example_env" by (simp add: example_handler_def)
  have t1: "\<not> fst (test CaseNoFile ?h)"
    by (simp add: example_script_path env os_path_exists_def example_env_def example_fs_def)
  have t2: "fst (test CaseExistingFile ?h)"
    by (simp add: example_script_path env os_path_isfile_def example_env_def example_fs_def)
  have t5: "fst (test CaseCGIFile ?h)"
    by (simp add: example_script_path env os_path_isfile_def example_env_def example_fs_def
        endswith_def)
  have split: "CASES = [CaseNoFile] @ CaseExistingFile #
      [CaseDirectoryIndexFile, CaseDirectoryNoIndexFile, CaseCGIFile, CaseAlwaysFail]"
    by (simp add: CASES_def)
  have "CASES = [CaseNoFile] @ CaseExistingFile #
      [CaseDirectoryIndexFile, CaseDirectoryNoIndexFile, CaseCGIFile, CaseAlwaysFail]
      \<and> (\<forall>k\<in>set [CaseNoFile]. \<not> fst (test k ?h)) \<and> fst (test CaseExistingFile ?h)"
    using split t1 t2 by simp
  with first_match_wins [of ?h]
  have "fst (run_cases CASES ?h) = map_sum id Some (fst (act CaseExistingFile ?h))
     \<and> (\<forall>k\<in>set [CaseDirectoryIndexFile, CaseDirectoryNoIndexFile, CaseCGIFile, CaseAlwaysFail].
           EvTest k \<notin> set (snd (run_cases CASES ?h)) \<and> EvAct k \<notin> set (snd (run_cases CASES ?h)))"
    by blast
  with t2 t5 show ?thesis by simp
qed

lemma handle_file_trace: "snd (handle_file h fp) = [EvOpen fp]"
  by (simp add: handle_file_def split: sum.split)

lemma list_dir_trace: "snd (list_dir h fp) = [EvListDir fp]"
  by (simp add: list_dir_def Let_def split: sum.split)

lemma chain_missing:
  assumes "fs (h_env h) (full_path h) = None"
  shows "run_cases CASES h =
           (Inl (ServerException (SQ @ path (h_req h) @ SQ @ '' not found'')),
            [EvTest CaseNoFile, EvExists (full_path h), EvAct CaseNoFile])"
  using assms by (simp add: CASES_def os_path_exists_def)

lemma chain_file:
  assumes "fs (h_env h) (full_path h) = Some (RegFile x)"
  shows "run_cases CASES h =
           (map_sum id Some (fst (handle_file h (full_path h))),
            [EvTest CaseNoFile, EvExists (full_path h),
             EvTest CaseExistingFile, EvIsFile (full_path h),
             EvAct CaseExistingFile, EvOpen (full_path h)])"
proof -
  obtain res tr where hf: "handle_file h (full_path h) = (res, tr)"
    by (cases "handle_file h (full_path h)")
  then have "tr = [EvOpen (full_path h)]"
    using handle_file_trace [of h "full_path h"] by simp
  with hf assms show ?thesis
    by (cases res) (simp_all add: CASES_def os_path_exists_def os_path_isfile_def)
qed

lemma chain_dir_index:
  assumes "fs (h_env h) (full_path h) = Some (Directory x)"
    and "os_path_isfile (h_env h) (index_path h)"
  shows "run_cases CASES h =
           (map_sum id Some (fst (handle_file h (index_path h))),
            [EvTest CaseNoFile, EvExists (full_path h),
             EvTest CaseExistingFile, EvIsFile (full_path h),
             EvTest CaseDirectoryIndexFile, EvIsDir (full_path h), EvIsFile (index_path h),
             EvAct CaseDirectoryIndexFile, EvOpen (index_path h)])"
proof -
  obtain res tr where hf: "handle_file h (index_path h) = (res, tr)"
    by (cases "handle_file h (index_path h)")
  then have "tr = [EvOpen (index_path h)]"
    using handle_file_trace [of h "index_path h"] by simp
  with hf assms show ?thesis
    by (cases res)
      (simp_all add: CASES_def os_path_exists_def os_path_isfile_def os_path_isdir_def)
qed

lemma chain_dir_listing:
  assumes "fs (h_env h) (full_path h) = Some (Directory x)"
    and "\<not> os_path_isfile (h_env h) (index_path h)"
  shows "run_cases CASES h =
           (map_sum id Some (fst (list_dir h (full_path h))),
            [EvTest CaseNoFile, EvExists (full_path h),
             EvTest CaseExistingFile, EvIsFile (full_path h),
             EvTest CaseDirectoryIndexFile, EvIsDir (full_path h), EvIsFile (index_path h),
             EvTest CaseDirectoryNoIndexFile, EvIsDir (full_path h), EvIsFile (index_path h),
             EvAct CaseDirectoryNoIndexFile, EvListDir (full_path h)])"
proof -
  obtain res tr where ld: "list_dir h (full_path h) = (res, tr)"
    by (cases "list_dir h (full_path h)")
  then have "tr = [EvListDir (full_path h)]"
    using list_dir_trace [of h "full_path h"] by simp
  with ld assms show ?thesis
    by (cases res)
      (simp_all add: CASES_def os_path_exists_def os_path_isfile_def os_path_isdir_def)
qed

lemma chain_special:
  assumes "fs (h_env h) (full_path h) = Some Special"
  shows "run_cases CASES h =
           (Inl (ServerException (''Unknown object '' @ SQ @ path (h_req h) @ SQ)),
            [EvTest CaseNoFile, EvExists (full_path h),
             EvTest CaseExistingFile, EvIsFile (full_path h),
             EvTest CaseDirectoryIndexFile, EvIsDir (full_path h),
             EvTest CaseDirectoryNoIndexFile, EvIsDir (full_path h),
             EvTest CaseCGIFile, EvIsFile (full_path h),
             EvTest CaseAlwaysFail, EvAct CaseAlwaysFail])"
  using assms
  by (simp add: CASES_def os_path_exists_def os_path_isfile_def os_path_isdir_def)

text \<open>The five situations are all there are.\<close>

lemma chain_situations:
  obtains "fs (h_env h) (full_path h) = None"
  | x where "fs (h_env h) (full_path h) = Some (RegFile x)"
  | x where "fs (h_env h) (full_path h) = Some (Directory x)"
      and "os_path_isfile (h_env h) (index_path h)"
  | x where "fs (h_env h) (full_path h) = Some (Directory x)"
      and "\<not> os_path_isfile (h_env h) (index_path h)"
  | "fs (h_env h) (full_path h) = Some Special"
proof (cases "fs (h_env h) (full_path h)")
  case None
  then show ?thesis using that by blast
next
  case (Some n)
  then show ?thesis using that by (cases n) blast+
qed

lemma chain_never_runs_cgi:
  "EvAct CaseCGIFile \<notin> set (snd (run_cases CASES h))"
  "EvRunCgi p \<notin> set (snd (run_cases CASES h))"
  by (rule chain_situations [of h];
      simp add: chain_missing chain_file chain_dir_index chain_dir_listing chain_special)+

lemma do_GET_trace:
  "snd (do_GET e r) = snd (do_GET_try e r)"
  by (cases "do_GET_try e r")
    (auto simp: do_GET_def split: sum.splits exn.splits)

lemma do_GET_try_trace:
  "snd (do_GET_try e r) = [] \<or>
   snd (do_GET_try e r) =
     snd (run_cases CASES \<lparr>h_env = e, h_req = r, full_path = abspath (cwd e) (cwd e @ path r)\<rparr>)"
  by (simp add: do_GET_try_def Let_def)

lemma endswith_iff: "endswith s suf \<longleftrightarrow> (\<exists>pre. s = pre @ suf)"
proof
  assume "endswith s suf"
  then have "s = take (length s - length suf) s @ suf"
    by (metis append_take_drop_id endswith_def)
  then show "\<exists>pre. s = pre @ suf" ..
next
  assume "\<exists>pre. s = pre @ suf"
  then show "endswith s suf" by (auto simp: endswith_def)
qed

lemma endswith_both:
  assumes "endswith s a" and "endswith s b" and "length a \<le> length b"
  shows "endswith b a"
proof -
  from assms have la: "length a \<le> length s" and lb: "length b \<le> length s"
    and a: "drop (length s - length a) s = a" and b: "drop (length s - length b) s = b"
    by (auto simp: endswith_def)
  have "drop (length b - length a) (drop (length s - length b) s) = drop (length s - length a) s"
    using assms(3) lb by simp
  with a b have "drop (length b - length a) b = a" by simp
  with assms(3) show ?thesis by (simp add: endswith_def)
qed

lemma content_type_py:
  assumes "endswith fp ''.py''"
  shows "content_type_of fp = ''text/plain''"
proof -
  have "\<not> endswith fp suf"
    if "suf \<in> {''.html'', ''.css'', ''.js'', ''.png'', ''.jpg'', ''.jpeg''}" for suf
  proof
    assume "endswith fp suf"
    with assms that have "endswith suf ''.py''"
      using endswith_both [of fp "''.py''" suf] by auto
    with that show False by (auto simp: endswith_def)
  qed
  then show ?thesis by (simp add: content_type_of_def)
qed

subsection \<open>The script case is shadowed\<close>

text \<open>
  Claim C3. The test of CaseCGIFile implies the test of CaseExistingFile, which stands
  before it in the list, so CaseCGIFile is never the first matching case: no run of the
  chain and no GET acts on it or starts the interpreter. A regular file whose name ends
  in \<open>.py\<close> is handled by \<open>handle_file\<close>, and when it can be read its bytes are
  sent with status 200 as \<open>text/plain\<close>.
\<close>

theorem cgi_case_unreachable:
  "(fst (test CaseCGIFile h) \<longrightarrow> fst (test CaseExistingFile h))
   \<and> (\<exists>pre mid post. CASES = pre @ CaseExistingFile # mid @ CaseCGIFile # post)
   \<and> \<not> (\<exists>pre post. CASES = pre @ CaseCGIFile # post
          \<and> (\<forall>k\<in>set pre. \<not> fst (test k h)) \<and> fst (test CaseCGIFile h))
   \<and> EvAct CaseCGIFile \<notin> set (snd (run_cases CASES h))
   \<and> (\<forall>fp. EvRunCgi fp \<notin> set (snd (run_cases CASES h)))
   \<and> EvAct CaseCGIFile \<notin> set (snd (do_GET e r))
   \<and> (\<forall>fp. EvRunCgi fp \<notin> set (snd (do_GET e r)))
   \<and> (fst (test CaseCGIFile h) \<longrightarrow>
        run_cases CASES h =
          (map_sum id Some (fst (handle_file h (full_path h))),
           [EvTest CaseNoFile, EvExists (full_path h),
            EvTest CaseExistingFile, EvIsFile (full_path h),
            EvAct CaseExistingFile, EvOpen (full_path h)])
        \<and> (\<forall>content. open_read (h_env h) (full_path h) = Inr content \<longrightarrow>
              fst (run_cases CASES h) = Inr (Some (send 200 ''text/plain'' content))))"
proof -
  have imp: "fst (test CaseCGIFile h) \<longrightarrow> fst (test CaseExistingFile h)"
    by simp
  have order: "\<exists>pre mid post. CASES = pre @ CaseExistingFile # mid @ CaseCGIFile # post"
  proof (intro exI)
    show "CASES = [CaseNoFile] @ CaseExistingFile
            # [CaseDirectoryIndexFile, CaseDirectoryNoIndexFile] @ CaseCGIFile # [CaseAlwaysFail]"
      by (simp add: CASES_def)
  qed
  have never_first: "\<not> (\<exists>pre post. CASES = pre @ CaseCGIFile # post
          \<and> (\<forall>k\<in>set pre. \<not> fst (test k h)) \<and> fst (test CaseCGIFile h))"
  proof
    assume "\<exists>pre post. CASES = pre @ CaseCGIFile # post
          \<and> (\<forall>k\<in>set pre. \<not> fst (test k h)) \<and> fst (test CaseCGIFile h)"
    then obtain pre post where sp: "CASES = pre @ CaseCGIFile # post"
      and none: "\<forall>k\<in>set pre. \<not> fst (test k h)" and cgi: "fst (test CaseCGIFile h)"
      by blast
    from sp have "CaseExistingFile \<in> set pre"
      by (auto simp: CASES_def Cons_eq_append_conv)
    with none have "\<not> fst (test CaseExistingFile h)" by blast
    with cgi imp show False by blast
  qed
  have get: "EvAct CaseCGIFile \<notin> set (snd (do_GET e r))" "EvRunCgi fp \<notin> set (snd (do_GET e r))" for fp
    using do_GET_try_trace [of e r] chain_never_runs_cgi
    by (auto simp: do_GET_trace)
  have served: "run_cases CASES h =
          (map_sum id Some (fst (handle_file h (full_path h))),
           [EvTest CaseNoFile, EvExists (full_path h),
            EvTest CaseExistingFile, EvIsFile (full_path h),
            EvAct CaseExistingFile, EvOpen (full_path h)])
        \<and> (\<forall>content. open_read (h_env h) (full_path h) = Inr content \<longrightarrow>
              fst (run_cases CASES h) = Inr (Some (send 200 ''text/plain'' content)))"
    if cgi: "fst (test CaseCGIFile h)"
  proof -
    from cgi have isf: "os_path_isfile (h_env h) (full_path h)" and py: "endswith (full_path h) ''.py''"
      by (auto split: if_splits)
    from isf obtain x where node: "fs (h_env h) (full_path h) = Some (RegFile x)"
      by (auto simp: os_path_isfile_def split: option.splits fsnode.splits)
    show ?thesis
      by (simp add: chain_file [OF node] handle_file_def content_type_py [OF py])
  qed
  from imp order never_first chain_never_runs_cgi get served show ?thesis
    by blast
qed

theorem cgi_case_unreachable_witness:
  "fst (test CaseCGIFile (example_handler ''/script.py''))
   \<and> fst (test CaseExistingFile (example_handler ''/script.py''))
   \<and> fst (run_cases CASES (example_handler ''/script.py''))
        = Inr (Some (send 200 ''text/plain'' ''print(1)''))"
proof -
  let ?h = "example_handler ''/script.py''"
  have env: "h_env ?h = example_env" by (simp add: example_handler_def)
  have cgi: "fst (test CaseCGIFile ?h)"
    by (simp add: example_script_path env os_path_isfile_def example_env_def example_fs_def
        endswith_def)
  have rd: "open_read (h_env ?h) (full_path ?h) = Inr ''print(1)''"
    by (simp add: example_script_path env open_read_def example_env_def example_fs_def)
  from cgi rd cgi_case_unreachable [of ?h example_env "get_request ''/script.py''"]
  show ?thesis by blast
qed

lemma do_GET_resolved:
  assumes "path r \<noteq> ''/''" and "startswith (abspath (cwd e) (cwd e @ path r)) (cwd e)"
  shows "do_GET_try e r =
           run_cases CASES \<lparr>h_env = e, h_req = r, full_path = abspath (cwd e) (cwd e @ path r)\<rparr>"
  using assms by (simp add: do_GET_try_def Let_def)

lemma content_type_table:
  "(endswith fp ''.html'' \<longrightarrow> content_type_of fp = ''text/html'')
   \<and> (endswith fp ''.css'' \<longrightarrow> content_type_of fp = ''text/css'')
   \<and> (endswith fp ''.js'' \<longrightarrow> content_type_of fp = ''application/javascript'')
   \<and> (endswith fp ''.png'' \<longrightarrow> content_type_of fp = ''image/png'')
   \<and> (endswith fp ''.jpg'' \<longrightarrow> content_type_of fp = ''image/jpeg'')
   \<and> (endswith fp ''.jpeg'' \<longrightarrow> content_type_of fp = ''image/jpeg'')
   \<and> (\<not> endswith fp ''.html'' \<and> \<not> endswith fp ''.css'' \<and> \<not> endswith fp ''.js''
        \<and> \<not> endswith fp ''.png'' \<and> \<not> endswith fp ''.jpg'' \<and> \<not> endswith fp ''.jpeg''
        \<longrightarrow> content_type_of fp = ''text/plain'')"
proof -
  have excl: "\<not> (endswith fp a \<and> endswith fp b)"
    if "\<not> endswith b a" "\<not> endswith a b" for a b
    using that endswith_both [of fp a b] endswith_both [of fp b a]
    by (cases "length a \<le> length b") auto
  have "\<not> (endswith fp ''.html'' \<and> endswith fp ''.css'')"
       "\<not> (endswith fp ''.html'' \<and> endswith fp ''.js'')"
       "\<not> (endswith fp ''.html'' \<and> endswith fp ''.png'')"
       "\<not> (endswith fp ''.html'' \<and> endswith fp ''.jpg'')"
       "\<not> (endswith fp ''.html'' \<and> endswith fp ''.jpeg'')"
       "\<not> (endswith fp ''.css'' \<and> endswith fp ''.js'')"
       "\<not> (endswith fp ''.css'' \<and> endswith fp ''.png'')"
       "\<not> (endswith fp ''.css'' \<and> endswith fp ''.jpg'')"
       "\<not> (endswith fp ''.css'' \<and> endswith fp ''.jpeg'')"
       "\<not> (endswith fp ''.js'' \<and> endswith fp ''.png'')"
       "\<not> (endswith fp ''.js'' \<and> endswith fp ''.jpg'')"
       "\<not> (endswith fp ''.js'' \<and> endswith fp ''.jpeg'')"
       "\<not> (endswith fp ''.png'' \<and> endswith fp ''.jpg'')"
       "\<not> (endswith fp ''.png'' \<and> endswith fp ''.jpeg'')"
    by (rule excl; simp add: endswith_def)+
  then show ?thesis
    unfolding content_type_of_def by auto
qed

lemma example_locked_path:
  "abspath ''/srv'' ''/srv/locked.txt'' = ''/srv/locked.txt''"
  by (simp add: path_defs)

lemma example_css_path:
  "abspath ''/srv'' ''/srv/pub/a.css'' = ''/srv/pub/a.css''"
  by (simp add: path_defs)

subsection \<open>Plain files\<close>

text \<open>
  Claim C4, as stated, fails: on the sample site \<open>/srv/locked.txt\<close> is an existing
  regular file under the root, the request \<open>/locked.txt\<close> resolves to it, opening it
  raises, and the response has status 404.
\<close>

theorem plain_file_unreadable_counterexample:
  "os_path_isfile example_env ''/srv/locked.txt''
   \<and> abspath (cwd example_env) (cwd example_env @ path (get_request ''/locked.txt''))
        = ''/srv/locked.txt''
   \<and> startswith ''/srv/locked.txt'' (cwd example_env)
   \<and> fst (do_GET example_env (get_request ''/locked.txt''))
        = Some (handle_error (get_request ''/locked.txt'')
                  ''Cannot read file: /srv/locked.txt'' 404)
   \<and> map_option status (fst (do_GET example_env (get_request ''/locked.txt''))) = Some 404"
proof -
  let ?r = "get_request ''/locked.txt''"
  have p: "path ?r = ''/locked.txt''" by (simp add: get_request_def)
  have c: "cwd example_env = ''/srv''" by (simp add: example_env_def)
  have node: "fs example_env ''/srv/locked.txt'' = Some (RegFile (Inl ''[Errno 13] Permission denied''))"
    by (simp add: example_env_def example_fs_def)
  have isf: "os_path_isfile example_env ''/srv/locked.txt''"
    by (simp add: os_path_isfile_def node)
  have sw: "startswith ''/srv/locked.txt'' ''/srv''" by (simp add: startswith_def)
  have "do_GET_try example_env ?r =
      run_cases CASES \<lparr>h_env = example_env, h_req = ?r, full_path = ''/srv/locked.txt''\<rparr>"
    using do_GET_resolved [of ?r example_env] by (simp add: p c example_locked_path sw)
  also have "\<dots> = (Inl (ServerException ''Cannot read file: /srv/locked.txt''),
            [EvTest CaseNoFile, EvExists ''/srv/locked.txt'',
             EvTest CaseExistingFile, EvIsFile ''/srv/locked.txt'',
             EvAct CaseExistingFile, EvOpen ''/srv/locked.txt''])"
    by (subst chain_file [where x = "Inl ''[Errno 13] Permission denied''"])
      (simp_all add: node handle_file_def open_read_def)
  finally have "fst (do_GET example_env ?r)
        = Some (handle_error ?r ''Cannot read file: /srv/locked.txt'' 404)"
    by (simp add: do_GET_def)
  then show ?thesis
    using isf sw by (simp add: p c example_locked_path handle_error_def send_def)
qed

text \<open>
  Claim C4, amended: for every regular file under the server root that can be opened and
  read, a GET whose path is not \<open>/\<close> and resolves to the file is answered with status
  200, the bytes of the file as body, their number as Content-Length, and the
  Content-Type that the table gives for the ending of the resolved path.
\<close>

theorem plain_file_served:
  assumes "path r \<noteq> ''/''"
    and "fp = abspath (cwd e) (cwd e @ path r)"
    and "startswith fp (cwd e)"
    and "fs e fp = Some (RegFile (Inr content))"
  shows "\<exists>ct. fst (do_GET e r) =
             Some \<lparr>status = 200,
                   resp_headers = [(''Content-Type'', ct),
                                   (''Content-Length'', str_nat (length content))],
                   body = content\<rparr>
          \<and> (endswith fp ''.html'' \<longrightarrow> ct = ''text/html'')
          \<and> (endswith fp ''.css'' \<longrightarrow> ct = ''text/css'')
          \<and> (endswith fp ''.js'' \<longrightarrow> ct = ''application/javascript'')
          \<and> (endswith fp ''.png'' \<longrightarrow> ct = ''image/png'')
          \<and> (endswith fp ''.jpg'' \<longrightarrow> ct = ''image/jpeg'')
          \<and> (endswith fp ''.jpeg'' \<longrightarrow> ct = ''image/jpeg'')
          \<and> (\<not> endswith fp ''.html'' \<and> \<not> endswith fp ''.css'' \<and> \<not> endswith fp ''.js''
               \<and> \<not> endswith fp ''.png'' \<and> \<not> endswith fp ''.jpg'' \<and> \<not> endswith fp ''.jpeg''
               \<longrightarrow> ct = ''text/plain'')"
proof -
  let ?h = "\<lparr>h_env = e, h_req = r, full_path = fp\<rparr>"
  have "do_GET_try e r = run_cases CASES ?h"
    using assms(1,2,3) do_GET_resolved [of r e] by simp
  moreover have "fst (run_cases CASES ?h) = Inr (Some (send 200 (content_type_of fp) content))"
    using assms(4) chain_file [of ?h "Inr content"]
    by (simp add: handle_file_def open_read_def)
  ultimately have "fst (do_GET e r) = Some (send 200 (content_type_of fp) content)"
    by (cases "run_cases CASES ?h") (simp add: do_GET_def)
  then have "fst (do_GET e r) =
             Some \<lparr>status = 200,
                   resp_headers = [(''Content-Type'', content_type_of fp),
                                   (''Content-Length'', str_nat (length content))],
                   body = content\<rparr>"
    by (simp add: send_def)
  with content_type_table [of fp] show ?thesis by blast
qed

theorem plain_file_served_witness:
  "fst (do_GET example_env (get_request ''/pub/a.css'')) =
     Some \<lparr>status = 200,
           resp_headers = [(''Content-Type'', ''text/css''), (''Content-Length'', ''4'')],
           body = ''p {}''\<rparr>"
proof -
  let ?r = "get_request ''/pub/a.css''"
  have p: "path ?r \<noteq> ''/''" by (simp add: get_request_def)
  have fp: "''/srv/pub/a.css'' = abspath (cwd example_env) (cwd example_env @ path ?r)"
    by (simp add: get_request_def example_env_def example_css_path)
  have sw: "startswith ''/srv/pub/a.css'' (cwd example_env)"
    by (simp add: example_env_def startswith_def)
  have node: "fs example_env ''/srv/pub/a.css'' = Some (RegFile (Inr ''p {}''))"
    by (simp add: example_env_def example_fs_def)
  have css: "endswith ''/srv/pub/a.css'' ''.css''" by (simp add: endswith_def)
  from plain_file_served [OF p fp sw node] css
  show ?thesis by (auto simp: str_nat.simps digit_char_def)
qed



lemma do_GET_caught:
  "fst (do_GET_try e r) = Inl (ServerException msg) \<Longrightarrow>
     fst (do_GET e r) = Some (handle_error r msg 404)"
  "fst (do_GET_try e r) = Inl (OtherException msg) \<Longrightarrow>
     fst (do_GET e r) = Some (handle_error r (''Internal server error: '' @ msg) 500)"
  "fst (do_GET_try e r) = Inr res \<Longrightarrow> fst (do_GET e r) = res"
  by (cases "do_GET_try e r"; simp add: do_GET_def)+




lemma get_unreadable:
  assumes "path r \<noteq> ''/''" and "fp = abspath (cwd e) (cwd e @ path r)"
    and "startswith fp (cwd e)" and "fs e fp = Some (RegFile (Inl err))"
  shows "fst (do_GET e r) = Some (handle_error r (''Cannot read file: '' @ fp) 404)"
proof -
  let ?h = "\<lparr>h_env = e, h_req = r, full_path = fp\<rparr>"
  have "do_GET_try e r = run_cases CASES ?h"
    using assms(1,2,3) do_GET_resolved [of r e] by simp
  moreover have "fst (run_cases CASES ?h) = Inl (ServerException (''Cannot read file: '' @ fp))"
    using assms(4) chain_file [of ?h "Inl err"] by (simp add: handle_file_def open_read_def)
  ultimately show ?thesis
    by (simp add: do_GET_caught(1))
qed




subsection \<open>Error pages\<close>







subsection \<open>Directory listings\<close>



lemma startswith_append:
  assumes "startswith d c"
  shows "startswith (d @ x) c"
proof -
  from assms have t: "take (length c) d = c" by (simp add: startswith_def)
  then have "length c \<le> length d"
    by (metis length_take min.cobounded1)
  with t show ?thesis by (simp add: startswith_def)
qed

lemma index_under_root:
  assumes "startswith d c"
  shows "startswith (path_join d ''index.html'') c"
  using startswith_append [OF assms]
  by (simp add: path_join_def) (simp add: startswith_def)

lemma index_is_html: "content_type_of (path_join d ''index.html'') = ''text/html''"
proof -
  have "\<exists>pre. path_join d ''index.html'' = pre @ ''.html''"
  proof (cases "d = [] \<or> endswith d ''/''")
    case True
    then have "path_join d ''index.html'' = (d @ ''index'') @ ''.html''"
      by (simp add: path_join_def startswith_def)
    then show ?thesis by blast
  next
    case False
    then have "path_join d ''index.html'' = (d @ ''/index'') @ ''.html''"
      by (simp add: path_join_def startswith_def)
    then show ?thesis by blast
  qed
  then have "endswith (path_join d ''index.html'') ''.html''"
    by (simp add: endswith_iff)
  then show ?thesis by (simp add: content_type_of_def)
qed

lemma get_file:
  assumes "path r \<noteq> ''/''" and "fp = abspath (cwd e) (cwd e @ path r)"
    and "startswith fp (cwd e)" and "fs e fp = Some (RegFile (Inr content))"
  shows "fst (do_GET e r) = Some (send 200 (content_type_of fp) content)"
proof -
  let ?h = "\<lparr>h_env = e, h_req = r, full_path = fp\<rparr>"
  have "do_GET_try e r = run_cases CASES ?h"
    using assms(1,2,3) do_GET_resolved [of r e] by simp
  moreover have "fst (run_cases CASES ?h) = Inr (Some (send 200 (content_type_of fp) content))"
    using assms(4) chain_file [of ?h "Inr content"]
    by (simp add: handle_file_def open_read_def)
  ultimately show ?thesis
    by (simp add: do_GET_caught(3))
qed

lemma get_index:
  assumes "path r \<noteq> ''/''" and "d = abspath (cwd e) (cwd e @ path r)"
    and "startswith d (cwd e)" and "fs e d = Some (Directory l)"
    and "fs e (path_join d ''index.html'') = Some (RegFile x)"
  shows "fst (do_GET e r) =
           (case x of
              Inr content \<Rightarrow> Some (send 200 ''text/html'' content)
            | Inl err \<Rightarrow>
                Some (handle_error r (''Cannot read file: '' @ path_join d ''index.html'') 404))"
proof -
  let ?h = "\<lparr>h_env = e, h_req = r, full_path = d\<rparr>"
  have "do_GET_try e r = run_cases CASES ?h"
    using assms(1,2,3) do_GET_resolved [of r e] by simp
  moreover have "os_path_isfile (h_env ?h) (index_path ?h)"
    using assms(5) by (simp add: os_path_isfile_def index_path_def)
  then have "run_cases CASES ?h =
      (map_sum id Some (fst (handle_file ?h (index_path ?h))),
            [EvTest CaseNoFile, EvExists (full_path ?h),
             EvTest CaseExistingFile, EvIsFile (full_path ?h),
             EvTest CaseDirectoryIndexFile, EvIsDir (full_path ?h), EvIsFile (index_path ?h),
             EvAct CaseDirectoryIndexFile, EvOpen (index_path ?h)])"
    using assms(4) by (intro chain_dir_index [of ?h l]) simp_all
  ultimately have "fst (do_GET_try e r) = map_sum id Some (fst (handle_file ?h (index_path ?h)))"
    by simp
  then show ?thesis
    using assms(5)
    by (cases x)
      (simp_all add: handle_file_def open_read_def index_path_def index_is_html do_GET_caught)
qed

lemma example_paths:
  "abspath ''/srv'' ''/srv/docs'' = ''/srv/docs''"
  "abspath ''/srv'' ''/srv/docs/index.html'' = ''/srv/docs/index.html''"
  "abspath ''/srv'' ''/srv/private'' = ''/srv/private''"
  "abspath ''/srv'' ''/srv/private/index.html'' = ''/srv/private/index.html''"
  "abspath ''/srv'' ''/srv/index.html'' = ''/srv/index.html''"
  by (simp_all add: path_defs)

subsection \<open>The index page of a directory\<close>

text \<open>
  Claim C7, as stated, fails in two ways on the sample site. The directory
  \<open>/srv/private\<close> contains the regular file \<open>index.html\<close>, which cannot be read:
  the requests \<open>/private\<close> and \<open>/private/index.html\<close> are both answered with
  status 404, but each error page names its own request path, so the responses differ.
  The root \<open>/srv\<close> contains a readable \<open>index.html\<close>: the request \<open>/\<close> is
  answered with the information page, not with the file that \<open>/index.html\<close> returns.
\<close>

theorem index_response_counterexample:
  "os_path_isdir example_env ''/srv/private''
   \<and> os_path_isfile example_env ''/srv/private/index.html''
   \<and> abspath (cwd example_env) (cwd example_env @ path (get_request ''/private''))
        = ''/srv/private''
   \<and> abspath (cwd example_env) (cwd example_env @ path (get_request ''/private/index.html''))
        = ''/srv/private/index.html''
   \<and> fst (do_GET example_env (get_request ''/private''))
        \<noteq> fst (do_GET example_env (get_request ''/private/index.html''))
   \<and> os_path_isdir example_env ''/srv''
   \<and> os_path_isfile example_env ''/srv/index.html''
   \<and> fst (do_GET example_env (get_request ''/''))
        \<noteq> fst (do_GET example_env (get_request ''/index.html''))"
proof -
  have c: "cwd example_env = ''/srv''" by (simp add: example_env_def)
  have p: "path (get_request q) = q" for q by (simp add: get_request_def)
  have kinds: "os_path_isdir example_env ''/srv/private''"
    "os_path_isfile example_env ''/srv/private/index.html''"
    "os_path_isdir example_env ''/srv''"
    "os_path_isfile example_env ''/srv/index.html''"
    by (simp_all add: os_path_isdir_def os_path_isfile_def example_env_def example_fs_def)
  have paths: "abspath (cwd example_env) (cwd example_env @ path (get_request ''/private''))
        = ''/srv/private''"
    "abspath (cwd example_env) (cwd example_env @ path (get_request ''/private/index.html''))
        = ''/srv/private/index.html''"
    by (simp_all add: c p example_paths)
  have j: "path_join ''/srv/private'' ''index.html'' = ''/srv/private/index.html''"
    by (simp add: path_join_def startswith_def endswith_def)
  have d: "fst (do_GET example_env (get_request ''/private'')) =
      Some (handle_error (get_request ''/private'')
              (''Cannot read file: '' @ ''/srv/private/index.html'') 404)"
    using get_index [of "get_request ''/private''" "''/srv/private''" example_env
        "Inr [''index.html'']" "Inl ''[Errno 13] Permission denied''"]
    by (simp add: c p example_paths j startswith_def) (simp add: example_env_def example_fs_def)
  have f: "fst (do_GET example_env (get_request ''/private/index.html'')) =
      Some (handle_error (get_request ''/private/index.html'')
              (''Cannot read file: '' @ ''/srv/private/index.html'') 404)"
    using get_unreadable [of "get_request ''/private/index.html''" "''/srv/private/index.html''"
        example_env "''[Errno 13] Permission denied''"]
    by (simp add: c p example_paths startswith_def) (simp add: example_env_def example_fs_def)
  have differ: "fst (do_GET example_env (get_request ''/private''))
        \<noteq> fst (do_GET example_env (get_request ''/private/index.html''))"
    unfolding d f by (simp add: handle_error_def send_def p ERROR_PAGE_def)
  have root: "fst (do_GET example_env (get_request ''/'')) =
      Some (send_root_page example_env (get_request ''/''))"
    by (simp add: do_GET_def do_GET_try_def p)
  have idx: "fst (do_GET example_env (get_request ''/index.html'')) =
      Some (send 200 (content_type_of ''/srv/index.html'') ''<h1>home</h1>'')"
    using get_file [of "get_request ''/index.html''" "''/srv/index.html''" example_env
        "''<h1>home</h1>''"]
    by (simp add: c p example_paths startswith_def) (simp add: example_env_def example_fs_def)
  have differ_root: "fst (do_GET example_env (get_request ''/''))
        \<noteq> fst (do_GET example_env (get_request ''/index.html''))"
    unfolding root idx
    by (simp add: send_root_page_def send_content_def send_def ROOT_PAGE_def)
  from kinds paths differ differ_root show ?thesis by (intro conjI)
qed

text \<open>
  Claim C7, amended: for every directory \<open>d\<close> under the server root that contains a
  regular file \<open>index.html\<close> which can be read, a GET with a path other than \<open>/\<close>
  that resolves to \<open>d\<close> and a GET that resolves to \<open>d/index.html\<close> are answered
  alike: status 200, Content-Type text/html, the bytes of the file.
\<close>

theorem index_response:
  assumes "path r1 \<noteq> ''/''" and "path r2 \<noteq> ''/''"
    and "d = abspath (cwd e) (cwd e @ path r1)"
    and "startswith d (cwd e)"
    and "fs e d = Some (Directory l)"
    and "abspath (cwd e) (cwd e @ path r2) = path_join d ''index.html''"
    and "fs e (path_join d ''index.html'') = Some (RegFile (Inr content))"
  shows "fst (do_GET e r1) = fst (do_GET e r2)
    \<and> fst (do_GET e r1) =
        Some \<lparr>status = 200,
              resp_headers = [(''Content-Type'', ''text/html''),
                              (''Content-Length'', str_nat (length content))],
              body = content\<rparr>"
proof -
  have one: "fst (do_GET e r1) = Some (send 200 ''text/html'' content)"
    using get_index [OF assms(1) assms(3) assms(4) assms(5) assms(7)] by simp
  have "startswith (path_join d ''index.html'') (cwd e)"
    using assms(4) by (rule index_under_root)
  then have two: "fst (do_GET e r2) = Some (send 200 ''text/html'' content)"
    using get_file [OF assms(2) assms(6) [symmetric] _ assms(7)]
    by (simp add: index_is_html)
  from one two show ?thesis by (simp add: send_def)
qed

theorem index_response_witness:
  "fst (do_GET example_env (get_request ''/docs''))
     = fst (do_GET example_env (get_request ''/docs/index.html''))
   \<and> fst (do_GET example_env (get_request ''/docs'')) =
        Some \<lparr>status = 200,
              resp_headers = [(''Content-Type'', ''text/html''), (''Content-Length'', ''9'')],
              body = ''<p>hi</p>''\<rparr>"
proof -
  have c: "cwd example_env = ''/srv''" by (simp add: example_env_def)
  have p: "path (get_request q) = q" for q by (simp add: get_request_def)
  have j: "path_join ''/srv/docs'' ''index.html'' = ''/srv/docs/index.html''"
    by (simp add: path_join_def startswith_def endswith_def)
  have a1: "path (get_request ''/docs'') \<noteq> ''/''" by (simp add: p)
  have a2: "path (get_request ''/docs/index.html'') \<noteq> ''/''" by (simp add: p)
  have a3: "''/srv/docs'' = abspath (cwd example_env) (cwd example_env @ path (get_request ''/docs''))"
    by (simp add: c p example_paths)
  have a4: "startswith ''/srv/docs'' (cwd example_env)" by (simp add: c startswith_def)
  have a5: "fs example_env ''/srv/docs'' = Some (Directory (Inr [''index.html'']))"
    by (simp add: example_env_def example_fs_def)
  have a6: "abspath (cwd example_env) (cwd example_env @ path (get_request ''/docs/index.html''))
      = path_join ''/srv/docs'' ''index.html''"
    by (simp add: c p example_paths j)
  have a7: "fs example_env (path_join ''/srv/docs'' ''index.html'') = Some (RegFile (Inr ''<p>hi</p>''))"
    by (simp add: j) (simp add: example_env_def example_fs_def)
  from index_response [OF a1 a2 a3 a4 a5 a6 a7]
  show ?thesis by (auto simp: str_nat.simps digit_char_def)
qed


subsection \<open>The POST stub\<close>





subsection \<open>The information page\<close>

text \<open>
  Claim C9. A GET whose path is exactly \<open>/\<close> is answered with status 200 and the
  information page: a table with the rows date and time, client host, client port,
  command and path. No case is tested and nothing is asked of the filesystem (the trace
  is empty), and the answer is the same whatever the working directory, the filesystem
  and the interpreter are, so neither the traversal check nor the chain has a part in it.
\<close>

theorem root_page:
  assumes \<open>path r = ''/''\<close>
  shows
    \<open>do_GET e r =
       (Some \<lparr>status = 200,
              resp_headers =
                [(''Content-Type'', ''text/html''),
                 (''Content-Length'',
                  str_nat (length (ROOT_PAGE (date_time_string e) (client_host r)
                                     (str_nat (client_port r)) (command r) ''/'')))],
              body = ROOT_PAGE (date_time_string e) (client_host r)
                       (str_nat (client_port r)) (command r) ''/''\<rparr>,
        [])
     \<and> do_GET e r = do_GET (e\<lparr>cwd := wd, fs := files, run_python := interp\<rparr>) r
     \<and> (\<forall>date_time host port cmd p.
          ROOT_PAGE date_time host port cmd p =
            ''<html>'' @ [CHR 0x0A] @
            ''<head><title>Server Info</title></head>'' @ [CHR 0x0A] @
            ''<body>'' @ [CHR 0x0A] @
            ''<h1>Server Information</h1>'' @ [CHR 0x0A] @
            ''<table border="1">'' @ [CHR 0x0A] @
            ''<tr><th>Header</th><th>Value</th></tr>'' @ [CHR 0x0A] @
            ''<tr><td>Date and time</td><td>'' @ date_time @ ''</td></tr>'' @ [CHR 0x0A] @
            ''<tr><td>Client host</td><td>'' @ host @ ''</td></tr>'' @ [CHR 0x0A] @
            ''<tr><td>Client port</td><td>'' @ port @ ''</td></tr>'' @ [CHR 0x0A] @
            ''<tr><td>Command</td><td>'' @ cmd @ ''</td></tr>'' @ [CHR 0x0A] @
            ''<tr><td>Path</td><td>'' @ p @ ''</td></tr>'' @ [CHR 0x0A] @
            ''</table>'' @ [CHR 0x0A] @
            ''</body>'' @ [CHR 0x0A] @
            ''</html>'')\<close>
proof (intro conjI)
  show \<open>do_GET e r =
       (Some \<lparr>status = 200,
              resp_headers =
                [(''Content-Type'', ''text/html''),
                 (''Content-Length'',
                  str_nat (length (ROOT_PAGE (date_time_string e) (client_host r)
                                     (str_nat (client_port r)) (command r) ''/'')))],
              body = ROOT_PAGE (date_time_string e) (client_host r)
                       (str_nat (client_port r)) (command r) ''/''\<rparr>,
        [])\<close>
    using assms
    by (simp add: do_GET_def do_GET_try_def send_root_page_def send_content_def send_def)
  show \<open>do_GET e r = do_GET (e\<lparr>cwd := wd, fs := files, run_python := interp\<rparr>) r\<close>
    using assms
    by (simp add: do_GET_def do_GET_try_def send_root_page_def)
  show \<open>\<forall>date_time host port cmd p.
          ROOT_PAGE date_time host port cmd p =
            ''<html>'' @ [CHR 0x0A] @
            ''<head><title>Server Info</title></head>'' @ [CHR 0x0A] @
            ''<body>'' @ [CHR 0x0A] @
            ''<h1>Server Information</h1>'' @ [CHR 0x0A] @
            ''<table border="1">'' @ [CHR 0x0A] @
            ''<tr><th>Header</th><th>Value</th></tr>'' @ [CHR 0x0A] @
            ''<tr><td>Date and time</td><td>'' @ date_time @ ''</td></tr>'' @ [CHR 0x0A] @
            ''<tr><td>Client host</td><td>'' @ host @ ''</td></tr>'' @ [CHR 0x0A] @
            ''<tr><td>Client port</td><td>'' @ port @ ''</td></tr>'' @ [CHR 0x0A] @
            ''<tr><td>Command</td><td>'' @ cmd @ ''</td></tr>'' @ [CHR 0x0A] @
            ''<tr><td>Path</td><td>'' @ p @ ''</td></tr>'' @ [CHR 0x0A] @
            ''</table>'' @ [CHR 0x0A] @
            ''</body>'' @ [CHR 0x0A] @
            ''</html>''\<close>
    by (simp add: ROOT_PAGE_def NL_def)
qed

theorem root_page_witness:
  \<open>do_GET example_env (get_request ''/'') =
     (Some (send_content
              (ROOT_PAGE ''Tue, 03 Nov 2026 12:00:00 GMT'' ''127.0.0.1'' ''54321'' ''GET'' ''/'')),
      [])\<close>
proof -
  have p: "path (get_request ''/'') = ''/''" by (simp add: get_request_def)
  have port: "str_nat (client_port (get_request ''/'')) = ''54321''"
    by (simp add: get_request_def str_nat.simps digit_char_def)
  have rest: "date_time_string example_env = ''Tue, 03 Nov 2026 12:00:00 GMT''"
    "client_host (get_request ''/'') = ''127.0.0.1''" "command (get_request ''/'') = ''GET''"
    by (simp_all add: example_env_def get_request_def)
  note root_page [OF p, of example_env, THEN conjunct1]
  then show ?thesis
    unfolding port rest by (simp only: send_content_def send_def)
qed

subsection \<open>The traversal check\<close>

text \<open>
  Claim C1 does not hold of the handler. The check compares the resolved path with the
  working directory as strings, so a path that leaves the root for a sibling whose name
  begins with the name of the root passes it. On the sample site the root is \<open>/srv\<close>;
  the request \<open>/../srv2/secret\<close> resolves to \<open>/srv2/secret\<close>, which is neither the
  root nor below it, the check lets it through, the chain runs, and the file is opened
  and sent with status 200.
\<close>

theorem traversal_check_escape:
  "abspath (cwd example_env) (cwd example_env @ path (get_request ''/../srv2/secret''))
     = ''/srv2/secret''
   \<and> \<not> spec_within_root (cwd example_env) ''/srv2/secret''
   \<and> startswith ''/srv2/secret'' (cwd example_env)
   \<and> do_GET example_env (get_request ''/../srv2/secret'') =
       (Some \<lparr>status = 200,
              resp_headers = [(''Content-Type'', ''text/plain''), (''Content-Length'', ''10'')],
              body = ''top secret''\<rparr>,
        [EvTest CaseNoFile, EvExists ''/srv2/secret'',
         EvTest CaseExistingFile, EvIsFile ''/srv2/secret'',
         EvAct CaseExistingFile, EvOpen ''/srv2/secret''])"
proof -
  let ?r = "get_request ''/../srv2/secret''"
  let ?h = "\<lparr>h_env = example_env, h_req = ?r, full_path = ''/srv2/secret''\<rparr>"
  have c: "cwd example_env = ''/srv''" by (simp add: example_env_def)
  have p: "path ?r = ''/../srv2/secret''" by (simp add: get_request_def)
  have resolved: "abspath (cwd example_env) (cwd example_env @ path ?r) = ''/srv2/secret''"
    by (simp add: c p path_defs)
  have outside: "\<not> spec_within_root (cwd example_env) ''/srv2/secret''"
    by (simp add: c spec_within_root_def startswith_def)
  have passes: "startswith ''/srv2/secret'' (cwd example_env)"
    by (simp add: c startswith_def)
  have node: "fs (h_env ?h) (full_path ?h) = Some (RegFile (Inr ''top secret''))"
    by (simp add: example_env_def example_fs_def)
  have ct: "content_type_of ''/srv2/secret'' = ''text/plain''"
    by (simp add: content_type_of_def endswith_def)
  have "do_GET_try example_env ?r = run_cases CASES ?h"
    using do_GET_resolved [of ?r example_env] passes by (simp add: resolved) (simp add: p)
  also have "\<dots> = (Inr (Some (send 200 ''text/plain'' ''top secret'')),
        [EvTest CaseNoFile, EvExists ''/srv2/secret'',
         EvTest CaseExistingFile, EvIsFile ''/srv2/secret'',
         EvAct CaseExistingFile, EvOpen ''/srv2/secret''])"
    unfolding chain_file [OF node]
    by (simp add: handle_file_def open_read_def ct example_env_def example_fs_def)
  finally have "do_GET example_env ?r =
       (Some (send 200 ''text/plain'' ''top secret''),
        [EvTest CaseNoFile, EvExists ''/srv2/secret'',
         EvTest CaseExistingFile, EvIsFile ''/srv2/secret'',
         EvAct CaseExistingFile, EvOpen ''/srv2/secret''])"
    by (simp add: do_GET_def)
  then have served: "do_GET example_env ?r =
       (Some \<lparr>status = 200,
              resp_headers = [(''Content-Type'', ''text/plain''), (''Content-Length'', ''10'')],
              body = ''top secret''\<rparr>,
        [EvTest CaseNoFile, EvExists ''/srv2/secret'',
         EvTest CaseExistingFile, EvIsFile ''/srv2/secret'',
         EvAct CaseExistingFile, EvOpen ''/srv2/secret''])"
    by (simp add: send_def str_nat.simps digit_char_def)
  from resolved outside passes served show ?thesis by (intro conjI)
qed

end
